theory Spec2Isabelle
  imports Main "HOL-Library.Word"
begin

unbundle bit_operations_syntax

section \<open>Values of the parsed document\<close>

text \<open>
  The script \<^verbatim>\<open>validate_lws.py\<close> works on whatever \<^verbatim>\<open>json.load\<close> returns: dicts, lists,
  strings, ints, floats, booleans and None. A Python string is a sequence of Unicode code
  points, so \<open>len\<close> counts code points and \<open>encode('utf-8')\<close> yields one to four bytes for
  each; a code point is a natural number here (below \<open>0x110000\<close> in Python). A dict is
  the list of its items in insertion order, its keys distinct. A float is its IEEE-754
  bit pattern; the script only ever tests a float for being zero.
\<close>

type_synonym pystr = "nat list"

type_synonym byte = "8 word"

datatype json =
    JNull
  | JBool bool
  | JInt int
  | JFloat "64 word"
  | JString pystr
  | JArray "json list"
  | JObject "(pystr \<times> json) list"

definition str :: "string \<Rightarrow> pystr" where
  "str = map of_char"

definition key_outputs :: pystr where
  "key_outputs = str ''outputs''"

definition key_transactions :: pystr where
  "key_transactions = str ''transactions''"

definition key_tx_pub_key :: pystr where
  "key_tx_pub_key = str ''tx_pub_key''"

definition key_spent_outputs :: pystr where
  "key_spent_outputs = str ''spent_outputs''"

section \<open>Exceptions\<close>

datatype pytype = NoneType | T_bool | T_int | T_float | T_str | T_list | T_dict

fun type_of :: "json \<Rightarrow> pytype" where
  "type_of JNull = NoneType"
| "type_of (JBool b) = T_bool"
| "type_of (JInt n) = T_int"
| "type_of (JFloat w) = T_float"
| "type_of (JString s) = T_str"
| "type_of (JArray xs) = T_list"
| "type_of (JObject kvs) = T_dict"

text \<open>
  The exceptions the script can meet, all of them subclasses of \<open>Exception\<close>. A
  \<open>TypeError\<close> records the operation that refused its operand and the operand's type:
  \<open>x in v\<close> (not iterable), \<open>len(v)\<close> (no len), \<open>v['key']\<close> (bad index: a list or a string
  indexed by a string, or a value that is not subscriptable) and \<open>re.match(p, v)\<close> (not
  a string). \<open>JSONDecodeError\<close> carries the parser's description, \<open>UnicodeEncodeError\<close>
  the position of the code point that has no encoding, \<open>OtherError\<close> stands for any
  other exception \<^verbatim>\<open>json.load\<close> may raise while reading standard input.
\<close>

datatype type_error = Not_iterable pytype | No_len pytype | Bad_index pytype | Not_string pytype

datatype exn =
    JSONDecodeError pystr
  | TypeError type_error
  | AttributeError pytype string
  | KeyError pystr
  | UnicodeEncodeError nat
  | OtherError pystr

section \<open>The operations of Python the script uses\<close>

text \<open>\<open>not v\<close> is \<open>\<not> truthy v\<close>: None, False, zero (also \<open>0.0\<close> and \<open>-0.0\<close>), and the
  empty string, list and dict are falsy.\<close>

fun truthy :: "json \<Rightarrow> bool" where
  "truthy JNull = False"
| "truthy (JBool b) = b"
| "truthy (JInt n) = (n \<noteq> 0)"
| "truthy (JFloat w) = (push_bit 1 w \<noteq> 0)"
| "truthy (JString s) = (s \<noteq> [])"
| "truthy (JArray xs) = (xs \<noteq> [])"
| "truthy (JObject kvs) = (kvs \<noteq> [])"

fun py_len :: "json \<Rightarrow> exn + nat" where
  "py_len (JString s) = Inr (length s)"
| "py_len (JArray xs) = Inr (length xs)"
| "py_len (JObject kvs) = Inr (length kvs)"
| "py_len v = Inl (TypeError (No_len (type_of v)))"

fun starts_with :: "pystr \<Rightarrow> pystr \<Rightarrow> bool" where
  "starts_with [] s = True"
| "starts_with (k # ks) [] = False"
| "starts_with (k # ks) (c # s) = (k = c \<and> starts_with ks s)"

fun str_contains :: "pystr \<Rightarrow> pystr \<Rightarrow> bool" where
  "str_contains k [] = (k = [])"
| "str_contains k (c # s) = (starts_with k (c # s) \<or> str_contains k s)"

text \<open>\<open>k in v\<close> for a string \<open>k\<close>: a key of a dict, an element of a list, a substring
  of a string; other values are not iterable.\<close>

fun py_in :: "pystr \<Rightarrow> json \<Rightarrow> exn + bool" where
  "py_in k (JObject kvs) = Inr (k \<in> set (map fst kvs))"
| "py_in k (JArray xs) = Inr (JString k \<in> set xs)"
| "py_in k (JString s) = Inr (str_contains k s)"
| "py_in k v = Inl (TypeError (Not_iterable (type_of v)))"

text \<open>\<open>v[k]\<close> for a string \<open>k\<close>.\<close>

fun py_getitem :: "json \<Rightarrow> pystr \<Rightarrow> exn + json" where
  "py_getitem (JObject kvs) k =
     (case map_of kvs k of None \<Rightarrow> Inl (KeyError k) | Some v \<Rightarrow> Inr v)"
| "py_getitem v k = Inl (TypeError (Bad_index (type_of v)))"

text \<open>\<open>v.get(k)\<close>: only a dict has the method; a missing key gives None.\<close>

fun py_get :: "json \<Rightarrow> pystr \<Rightarrow> exn + json" where
  "py_get (JObject kvs) k =
     Inr (case map_of kvs k of None \<Rightarrow> JNull | Some v \<Rightarrow> v)"
| "py_get v k = Inl (AttributeError (type_of v) ''get'')"

text \<open>What \<open>enumerate(v)\<close> runs over: the elements of a list, the one-character
  strings of a string, the keys of a dict.\<close>

fun py_iter :: "json \<Rightarrow> exn + json list" where
  "py_iter (JArray xs) = Inr xs"
| "py_iter (JString s) = Inr (map (\<lambda>c. JString [c]) s)"
| "py_iter (JObject kvs) = Inr (map (\<lambda>kv. JString (fst kv)) kvs)"
| "py_iter v = Inl (TypeError (Not_iterable (type_of v)))"

section \<open>The hex predicate\<close>

text \<open>
  \<^verbatim>\<open>re.match(r'^[0-9a-fA-F]+$', s)\<close>: the class matches the code points of \<open>0\<close>-\<open>9\<close>,
  \<open>a\<close>-\<open>f\<close> and \<open>A\<close>-\<open>F\<close>; \<open>+\<close> takes the longest run of them, which must not be empty;
  \<open>$\<close>, with no flag given, matches at the end of the string and also just before a
  line feed that is the last character of the string. Giving the run back one
  character at a time never helps: the position then stands before a hex digit.
\<close>

definition is_hex :: "nat \<Rightarrow> bool" where
  "is_hex c = ((48 \<le> c \<and> c \<le> 57) \<or> (97 \<le> c \<and> c \<le> 102) \<or> (65 \<le> c \<and> c \<le> 70))"

definition at_dollar :: "pystr \<Rightarrow> bool" where
  "at_dollar rest = (rest = [] \<or> rest = [10])"

definition hex_pattern :: "pystr \<Rightarrow> bool" where
  "hex_pattern s = (takeWhile is_hex s \<noteq> [] \<and> at_dollar (dropWhile is_hex s))"

fun re_match :: "json \<Rightarrow> exn + bool" where
  "re_match (JString s) = Inr (hex_pattern s)"
| "re_match v = Inl (TypeError (Not_string (type_of v)))"

definition validate_hex :: "json \<Rightarrow> nat \<Rightarrow> exn + bool" where
  "validate_hex s n =
     (case py_len s of
        Inl e \<Rightarrow> Inl e
      | Inr l \<Rightarrow> if l \<noteq> n then Inr False else re_match s)"

section \<open>The hexadecimal dump\<close>

definition is_surrogate :: "nat \<Rightarrow> bool" where
  "is_surrogate c = (55296 \<le> c \<and> c \<le> 57343)"

definition utf8_char :: "nat \<Rightarrow> byte list" where
  "utf8_char c =
     (if c < 128 then [of_nat c]
      else if c < 2048 then [of_nat (192 + c div 64), of_nat (128 + c mod 64)]
      else if c < 65536 then
        [of_nat (224 + c div 4096), of_nat (128 + c div 64 mod 64), of_nat (128 + c mod 64)]
      else
        [of_nat (240 + c div 262144), of_nat (128 + c div 4096 mod 64),
         of_nat (128 + c div 64 mod 64), of_nat (128 + c mod 64)])"

text \<open>\<open>s.encode('utf-8')\<close> from position \<open>i\<close> on: a surrogate code point has no
  encoding and raises.\<close>

fun utf8_encode :: "nat \<Rightarrow> pystr \<Rightarrow> exn + byte list" where
  "utf8_encode i [] = Inr []"
| "utf8_encode i (c # cs) =
     (if is_surrogate c then Inl (UnicodeEncodeError i)
      else case utf8_encode (Suc i) cs of
             Inl e \<Rightarrow> Inl e
           | Inr bs \<Rightarrow> Inr (utf8_char c @ bs))"

fun py_encode :: "json \<Rightarrow> exn + byte list" where
  "py_encode (JString s) = utf8_encode 0 s"
| "py_encode v = Inl (AttributeError (type_of v) ''encode'')"

definition hex_digits :: pystr where
  "hex_digits = str ''0123456789abcdef''"

definition byte_hex :: "byte \<Rightarrow> pystr" where
  "byte_hex b = [hex_digits ! (unat b div 16), hex_digits ! (unat b mod 16)]"

definition bytes_hex :: "byte list \<Rightarrow> pystr" where
  "bytes_hex bs = concat (map byte_hex bs)"

text \<open>\<open>pubkey.encode('utf-8').hex()\<close>\<close>

definition hex_repr :: "json \<Rightarrow> exn + pystr" where
  "hex_repr v = (case py_encode v of Inl e \<Rightarrow> Inl e | Inr bs \<Rightarrow> Inr (bytes_hex bs))"

section \<open>The script\<close>

text \<open>
  Standard output is the list of the lines printed so far. A line is the f-string that
  printed it, with the values it interpolates:
  \<^item> \<open>Checking_outputs n\<close>: \<^verbatim>\<open>Checking {n} outputs...\<close>
  \<^item> \<open>Output_missing i\<close>: \<^verbatim>\<open>Error: Output {i} missing tx_pub_key\<close>
  \<^item> \<open>Output_invalid i v n\<close>: \<^verbatim>\<open>Error: Output {i} has invalid tx_pub_key: '{v}' len={n}\<close>
  \<^item> \<open>Hex_repr h\<close>: \<^verbatim>\<open>Hex repr: {h}\<close>
  \<^item> \<open>Output_valid i v\<close>: \<^verbatim>\<open>Output {i} tx_pub_key valid: {v}\<close>
  \<^item> \<open>Checking_transactions n\<close>: \<^verbatim>\<open>Checking {n} transactions...\<close>
  \<^item> \<open>Transaction_missing i\<close>: \<^verbatim>\<open>Error: Transaction {i} missing spent_outputs\<close>
  \<^item> \<open>Transaction_has i n\<close>: \<^verbatim>\<open>Transaction {i} has spent_outputs ({n} items)\<close>
  \<^item> \<open>Validation_Successful\<close>: \<^verbatim>\<open>Validation Successful\<close>
  \<^item> \<open>Validation_Error e\<close>: \<^verbatim>\<open>Validation Error: {e}\<close>

  \<open>print\<close> encodes the text for the stream, as UTF-8, before it writes any of it: a
  surrogate code point in the text raises \<open>UnicodeEncodeError\<close> with its position in the
  line, and nothing of the line is written. Only a string of the document that the line
  interpolates can bring one: counts and indices are digits, a list or an object is
  written with its strings escaped, and so are the messages of the exceptions.

  A block of statements ends by running to its end (\<open>Done\<close>), by \<open>sys.exit(n)\<close>, whose
  \<open>SystemExit\<close> is not an \<open>Exception\<close> and so passes the handler, or by raising an
  exception.
\<close>

datatype line =
    Checking_outputs nat
  | Output_missing nat
  | Output_invalid nat json nat
  | Hex_repr pystr
  | Output_valid nat json
  | Checking_transactions nat
  | Transaction_missing nat
  | Transaction_has nat nat
  | Validation_Successful
  | Validation_Error exn

type_synonym stdout = "line list"

datatype completion = Done | SysExit int | Raised exn

text \<open>\<open>str(n)\<close> for a count or an index.\<close>

fun decimal :: "nat \<Rightarrow> pystr" where
  "decimal n = (if n < 10 then [48 + n] else decimal (n div 10) @ [48 + n mod 10])"

declare decimal.simps [simp del]

text \<open>The position of the first surrogate of \<open>s\<close>, counted from \<open>p\<close>.\<close>

fun find_surrogate :: "nat \<Rightarrow> pystr \<Rightarrow> nat option" where
  "find_surrogate p [] = None"
| "find_surrogate p (c # cs) = (if is_surrogate c then Some p else find_surrogate (Suc p) cs)"

text \<open>The position in a line's text of the first code point that UTF-8 cannot encode:
  the string, if any, stands after \<^verbatim>\<open>Error: Output {i} has invalid tx_pub_key: '\<close> or
  after \<^verbatim>\<open>Output {i} tx_pub_key valid: \<close>.\<close>

fun unencodable :: "line \<Rightarrow> nat option" where
  "unencodable (Output_invalid i (JString s) n) =
     find_surrogate
       (length (str ''Error: Output '' @ decimal i @ str '' has invalid tx_pub_key: '' @ [39])) s"
| "unencodable (Output_valid i (JString s)) =
     find_surrogate (length (str ''Output '' @ decimal i @ str '' tx_pub_key valid: '')) s"
| "unencodable l = None"

definition py_print :: "line \<Rightarrow> stdout \<Rightarrow> exn + stdout" where
  "py_print l out =
     (case unencodable l of
        Some p \<Rightarrow> Inl (UnicodeEncodeError p)
      | None \<Rightarrow> Inr (out @ [l]))"

text \<open>The body of \<^verbatim>\<open>for i, out in enumerate(data['outputs'])\<close>, from index \<open>i\<close> on.\<close>

fun outputs_loop :: "nat \<Rightarrow> json list \<Rightarrow> stdout \<Rightarrow> stdout \<times> completion" where
  "outputs_loop i [] out = (out, Done)"
| "outputs_loop i (x # rest) out =
     (case py_get x key_tx_pub_key of
        Inl e \<Rightarrow> (out, Raised e)
      | Inr pubkey \<Rightarrow>
          if \<not> truthy pubkey then (out @ [Output_missing i], SysExit 1)
          else
            (case validate_hex pubkey 64 of
               Inl e \<Rightarrow> (out, Raised e)
             | Inr ok \<Rightarrow>
                 if \<not> ok then
                   (case py_len pubkey of
                      Inl e \<Rightarrow> (out, Raised e)
                    | Inr n \<Rightarrow>
                        (case py_print (Output_invalid i pubkey n) out of
                           Inl e \<Rightarrow> (out, Raised e)
                         | Inr out1 \<Rightarrow>
                             (case hex_repr pubkey of
                                Inl e \<Rightarrow> (out1, Raised e)
                              | Inr h \<Rightarrow> (out1 @ [Hex_repr h], SysExit 1))))
                 else
                   (case py_print (Output_valid i pubkey) out of
                      Inl e \<Rightarrow> (out, Raised e)
                    | Inr out1 \<Rightarrow> outputs_loop (Suc i) rest out1)))"

text \<open>The body of \<^verbatim>\<open>for i, tx in enumerate(data['transactions'])\<close>, from index \<open>i\<close> on.\<close>

fun transactions_loop :: "nat \<Rightarrow> json list \<Rightarrow> stdout \<Rightarrow> stdout \<times> completion" where
  "transactions_loop i [] out = (out, Done)"
| "transactions_loop i (tx # rest) out =
     (case py_in key_spent_outputs tx of
        Inl e \<Rightarrow> (out, Raised e)
      | Inr present \<Rightarrow>
          if \<not> present then (out @ [Transaction_missing i], SysExit 1)
          else
            (case py_getitem tx key_spent_outputs of
               Inl e \<Rightarrow> (out, Raised e)
             | Inr v \<Rightarrow>
                 (case py_len v of
                    Inl e \<Rightarrow> (out, Raised e)
                  | Inr n \<Rightarrow> transactions_loop (Suc i) rest (out @ [Transaction_has i n]))))"

text \<open>The two branches of the dispatch: the \<open>print\<close> of the count, then the loop over
  \<open>data[key]\<close>, which the script evaluates a second time.\<close>

definition check_outputs :: "json \<Rightarrow> stdout \<Rightarrow> stdout \<times> completion" where
  "check_outputs data out =
     (case py_getitem data key_outputs of
        Inl e \<Rightarrow> (out, Raised e)
      | Inr v \<Rightarrow>
          (case py_len v of
             Inl e \<Rightarrow> (out, Raised e)
           | Inr n \<Rightarrow>
               (case py_getitem data key_outputs of
                  Inl e \<Rightarrow> (out @ [Checking_outputs n], Raised e)
                | Inr v' \<Rightarrow>
                    (case py_iter v' of
                       Inl e \<Rightarrow> (out @ [Checking_outputs n], Raised e)
                     | Inr xs \<Rightarrow> outputs_loop 0 xs (out @ [Checking_outputs n])))))"

definition check_transactions :: "json \<Rightarrow> stdout \<Rightarrow> stdout \<times> completion" where
  "check_transactions data out =
     (case py_getitem data key_transactions of
        Inl e \<Rightarrow> (out, Raised e)
      | Inr v \<Rightarrow>
          (case py_len v of
             Inl e \<Rightarrow> (out, Raised e)
           | Inr n \<Rightarrow>
               (case py_getitem data key_transactions of
                  Inl e \<Rightarrow> (out @ [Checking_transactions n], Raised e)
                | Inr v' \<Rightarrow>
                    (case py_iter v' of
                       Inl e \<Rightarrow> (out @ [Checking_transactions n], Raised e)
                     | Inr xs \<Rightarrow> transactions_loop 0 xs (out @ [Checking_transactions n])))))"

text \<open>The statement after the \<open>if\<close>/\<open>elif\<close>: \<^verbatim>\<open>print("Validation Successful")\<close>, reached
  only when the branch taken ran to its end.\<close>

fun report_success :: "stdout \<times> completion \<Rightarrow> stdout \<times> completion" where
  "report_success (out, Done) = (out @ [Validation_Successful], Done)"
| "report_success (out, c) = (out, c)"

text \<open>The \<open>try\<close> block after \<^verbatim>\<open>data = json.load(sys.stdin)\<close>.\<close>

definition validate :: "json \<Rightarrow> stdout \<Rightarrow> stdout \<times> completion" where
  "validate data out =
     (case py_in key_outputs data of
        Inl e \<Rightarrow> (out, Raised e)
      | Inr has_outputs \<Rightarrow>
          if has_outputs then report_success (check_outputs data out)
          else
            (case py_in key_transactions data of
               Inl e \<Rightarrow> (out, Raised e)
             | Inr has_transactions \<Rightarrow>
                 if has_transactions then report_success (check_transactions data out)
                 else report_success (out, Done)))"

text \<open>
  The whole script, from what \<^verbatim>\<open>json.load(sys.stdin)\<close> did (it raised, or it returned the
  document) to the lines printed and the exit code of the process. The handler
  \<^verbatim>\<open>except Exception as e\<close> prints one line and exits with 1; a script that runs to its
  end exits with 0.
\<close>

fun handle :: "stdout \<times> completion \<Rightarrow> stdout \<times> int" where
  "handle (out, Done) = (out, 0)"
| "handle (out, SysExit n) = (out, n)"
| "handle (out, Raised e) = (out @ [Validation_Error e], 1)"

definition validate_lws :: "exn + json \<Rightarrow> stdout \<times> int" where
  "validate_lws loaded =
     (case loaded of
        Inl e \<Rightarrow> handle ([], Raised e)
      | Inr data \<Rightarrow> handle (validate data []))"

section \<open>Reading the outcome of a run\<close>

text \<open>The lines that report a failure: the two missing-field errors, the two lines of
  the invalid-field diagnostic, and the handler's line.\<close>

fun is_failure :: "line \<Rightarrow> bool" where
  "is_failure (Output_missing i) = True"
| "is_failure (Output_invalid i v n) = True"
| "is_failure (Hex_repr h) = True"
| "is_failure (Transaction_missing i) = True"
| "is_failure (Validation_Error e) = True"
| "is_failure l = False"

text \<open>A run succeeded when it printed no failure line and its last line is
  \<^verbatim>\<open>Validation Successful\<close>; it failed when its last line reports a failure.\<close>

definition succeeded :: "stdout \<Rightarrow> bool" where
  "succeeded out =
     (out \<noteq> [] \<and> last out = Validation_Successful \<and> list_all (\<lambda>l. \<not> is_failure l) out)"

definition failed :: "stdout \<Rightarrow> bool" where
  "failed out = (out \<noteq> [] \<and> is_failure (last out))"

text \<open>The digits \<open>bytes.hex()\<close> writes: \<open>0\<close>-\<open>9\<close> and the lower-case \<open>a\<close>-\<open>f\<close>.\<close>

definition is_lower_hex :: "nat \<Rightarrow> bool" where
  "is_lower_hex c = ((48 \<le> c \<and> c \<le> 57) \<or> (97 \<le> c \<and> c \<le> 102))"

section \<open>What the hex predicate accepts\<close>

lemma not_is_hex_newline: "\<not> is_hex 10"
  by (simp add: is_hex_def)

lemma hex_pattern_iff:
  "hex_pattern s \<longleftrightarrow>
     s \<noteq> [] \<and> (list_all is_hex s \<or> (butlast s \<noteq> [] \<and> list_all is_hex (butlast s) \<and> last s = 10))"
proof (induction s rule: rev_induct)
  case Nil
  show ?case by (simp add: hex_pattern_def)
next
  case (snoc c s)
  show ?case
  proof (cases "list_all is_hex s")
    case True
    then have tw: "takeWhile is_hex (s @ [c]) = s @ takeWhile is_hex [c]"
      and dw: "dropWhile is_hex (s @ [c]) = dropWhile is_hex [c]"
      by (simp_all add: list_all_iff)
    show ?thesis
    proof (cases "is_hex c")
      case c: True
      with True show ?thesis
        by (simp add: hex_pattern_def at_dollar_def tw dw)
    next
      case c: False
      with True show ?thesis
        using not_is_hex_newline by (auto simp: hex_pattern_def at_dollar_def tw dw)
    qed
  next
    case False
    then obtain x where x: "x \<in> set s" "\<not> is_hex x"
      by (auto simp: list_all_iff)
    then have tw: "takeWhile is_hex (s @ [c]) = takeWhile is_hex s"
      and dw: "dropWhile is_hex (s @ [c]) = dropWhile is_hex s @ [c]"
      by (simp_all add: takeWhile_append1 dropWhile_append1)
    from x have "dropWhile is_hex s \<noteq> []"
      by (auto simp: dropWhile_eq_Nil_conv)
    then have "\<not> at_dollar (dropWhile is_hex s @ [c])"
      by (cases "dropWhile is_hex s") (auto simp: at_dollar_def)
    with False show ?thesis
      by (simp add: hex_pattern_def tw dw)
  qed
qed

lemma validate_hex_string:
  "validate_hex (JString s) 64 =
     Inr (length s = 64 \<and> (list_all is_hex s \<or> (list_all is_hex (butlast s) \<and> last s = 10)))"
proof (cases "length s = 64")
  case True
  then have "s \<noteq> []" and "butlast s \<noteq> []"
    by (auto simp flip: length_0_conv)
  with True show ?thesis
    by (simp add: validate_hex_def hex_pattern_iff)
next
  case False
  then show ?thesis
    by (simp add: validate_hex_def)
qed

section \<open>Printing\<close>

lemma find_surrogate_none:
  "list_all (\<lambda>c. \<not> is_surrogate c) s \<Longrightarrow> find_surrogate p s = None"
  by (induction s arbitrary: p) simp_all

lemma is_hex_not_surrogate: "is_hex c \<Longrightarrow> \<not> is_surrogate c"
  by (auto simp: is_hex_def is_surrogate_def)

lemma hex_pattern_no_surrogate:
  assumes "hex_pattern s"
  shows "list_all (\<lambda>c. \<not> is_surrogate c) s"
proof -
  from assms have "s \<noteq> []"
    and "list_all is_hex s \<or> (list_all is_hex (butlast s) \<and> last s = 10)"
    by (auto simp: hex_pattern_iff)
  then show ?thesis
  proof (elim disjE conjE)
    assume "list_all is_hex s"
    then show ?thesis
      by (auto simp: list_all_iff is_hex_not_surrogate)
  next
    assume a: "list_all is_hex (butlast s)" and b: "last s = 10"
    have "\<not> is_surrogate 10"
      by (simp add: is_surrogate_def)
    with a b have "list_all (\<lambda>c. \<not> is_surrogate c) (butlast s @ [last s])"
      by (auto simp: list_all_iff is_hex_not_surrogate)
    with \<open>s \<noteq> []\<close> show ?thesis
      by simp
  qed
qed

lemma py_print_plain: "unencodable l = None \<Longrightarrow> py_print l out = Inr (out @ [l])"
  by (simp add: py_print_def)

lemma print_valid:
  assumes "validate_hex pubkey 64 = Inr True"
  shows "py_print (Output_valid i pubkey) out = Inr (out @ [Output_valid i pubkey])"
proof (cases pubkey)
  case (JString s)
  with assms have "hex_pattern s"
    by (simp add: validate_hex_def split: if_splits)
  then show ?thesis
    using JString by (simp add: py_print_plain find_surrogate_none hex_pattern_no_surrogate)
qed (simp_all add: py_print_def)

lemma print_invalid_string:
  assumes "list_all (\<lambda>c. \<not> is_surrogate c) s"
  shows "py_print (Output_invalid i (JString s) n) out = Inr (out @ [Output_invalid i (JString s) n])"
  using assms by (simp add: py_print_plain find_surrogate_none)

lemma py_print_out:
  "py_print l out = (case py_print l [] of Inl e \<Rightarrow> Inl e | Inr ls \<Rightarrow> Inr (out @ ls))"
  by (simp add: py_print_def split: option.splits)

section \<open>The loops, one element at a time\<close>

lemma outputs_loop_out:
  "outputs_loop i xs out = (out @ fst (outputs_loop i xs []), snd (outputs_loop i xs []))"
proof (induction xs arbitrary: i out)
  case Nil
  show ?case by simp
next
  case (Cons x rest)
  have a: "outputs_loop (Suc i) rest (out @ [l]) =
      ((out @ [l]) @ fst (outputs_loop (Suc i) rest []), snd (outputs_loop (Suc i) rest []))" for l
    by (rule Cons.IH)
  have b: "outputs_loop (Suc i) rest [l] =
      ([l] @ fst (outputs_loop (Suc i) rest []), snd (outputs_loop (Suc i) rest []))" for l
    by (rule Cons.IH)
  show ?case
    by (simp add: a b py_print_def split: sum.splits option.splits)
qed

lemma outputs_loop_append:
  "outputs_loop i pre out = (out', Done) \<Longrightarrow>
   outputs_loop i (pre @ rest) out = outputs_loop (i + length pre) rest out'"
  by (induction pre arbitrary: i out)
    (auto simp: py_print_def split: sum.splits if_splits option.splits)

lemma outputs_loop_prefix:
  assumes "outputs_loop 0 pre [] = (ls, Done)"
  shows "outputs_loop 0 (pre @ rest) out = outputs_loop (length pre) rest (out @ ls)"
proof -
  from assms have "outputs_loop 0 pre out = (out @ ls, Done)"
    using outputs_loop_out [of 0 pre out] by simp
  then show ?thesis
    using outputs_loop_append [of 0 pre out "out @ ls" rest] by simp
qed

lemma transactions_loop_out:
  "transactions_loop i xs out =
     (out @ fst (transactions_loop i xs []), snd (transactions_loop i xs []))"
proof (induction xs arbitrary: i out)
  case Nil
  show ?case by simp
next
  case (Cons x rest)
  have a: "transactions_loop (Suc i) rest (out @ [l]) =
      ((out @ [l]) @ fst (transactions_loop (Suc i) rest []),
       snd (transactions_loop (Suc i) rest []))" for l
    by (rule Cons.IH)
  have b: "transactions_loop (Suc i) rest [l] =
      ([l] @ fst (transactions_loop (Suc i) rest []),
       snd (transactions_loop (Suc i) rest []))" for l
    by (rule Cons.IH)
  show ?case
    by (simp add: a b split: sum.splits)
qed

lemma transactions_loop_append:
  "transactions_loop i pre out = (out', Done) \<Longrightarrow>
   transactions_loop i (pre @ rest) out = transactions_loop (i + length pre) rest out'"
  by (induction pre arbitrary: i out) (auto split: sum.splits if_splits)

lemma transactions_loop_prefix:
  assumes "transactions_loop 0 pre [] = (ls, Done)"
  shows "transactions_loop 0 (pre @ rest) out = transactions_loop (length pre) rest (out @ ls)"
proof -
  from assms have "transactions_loop 0 pre out = (out @ ls, Done)"
    using transactions_loop_out [of 0 pre out] by simp
  then show ?thesis
    using transactions_loop_append [of 0 pre out "out @ ls" rest] by simp
qed

lemma py_in_object: "py_in k (JObject kvs) = Inr (map_of kvs k \<noteq> None)"
  by (simp add: map_of_eq_None_iff)

lemma validate_lws_outputs:
  assumes "map_of kvs key_outputs = Some (JArray xs)"
  shows "validate_lws (Inr (JObject kvs)) =
           handle (report_success (outputs_loop 0 xs [Checking_outputs (length xs)]))"
  using assms
  by (simp add: validate_lws_def validate_def check_outputs_def py_in_object del: py_in.simps)

lemma validate_lws_transactions:
  assumes "map_of kvs key_outputs = None" and "map_of kvs key_transactions = Some (JArray xs)"
  shows "validate_lws (Inr (JObject kvs)) =
           handle (report_success (transactions_loop 0 xs [Checking_transactions (length xs)]))"
  using assms
  by (simp add: validate_lws_def validate_def check_transactions_def py_in_object
      del: py_in.simps)

section \<open>How a run ends\<close>

lemma failed_snoc: "failed (out @ [l]) = is_failure l"
  by (simp add: failed_def)

lemma failed_snoc2: "failed (out @ [k, l]) = is_failure l"
  by (simp add: failed_def)

lemma outputs_loop_outcome:
  assumes "outputs_loop i xs out = (out', c)" and "list_all (\<lambda>l. \<not> is_failure l) out"
  shows "(c = Done \<longrightarrow> list_all (\<lambda>l. \<not> is_failure l) out') \<and>
         (\<forall>n. c = SysExit n \<longrightarrow> n = 1 \<and> failed out')"
  using assms
proof (induction xs arbitrary: i out)
  case Nil
  then show ?case by auto
next
  case (Cons x rest)
  show ?case
  proof (cases "\<exists>pubkey. py_get x key_tx_pub_key = Inr pubkey \<and> truthy pubkey \<and>
      validate_hex pubkey 64 = Inr True")
    case True
    then obtain pubkey where "py_get x key_tx_pub_key = Inr pubkey" "truthy pubkey"
      "validate_hex pubkey 64 = Inr True" by blast
    with Cons.prems have "outputs_loop (Suc i) rest (out @ [Output_valid i pubkey]) = (out', c)"
      and "list_all (\<lambda>l. \<not> is_failure l) (out @ [Output_valid i pubkey])"
      by (simp_all add: print_valid)
    then show ?thesis by (rule Cons.IH)
  next
    case False
    with Cons.prems show ?thesis
      by (auto simp: failed_snoc failed_snoc2 py_print_def
          split: sum.splits if_splits option.splits)
  qed
qed

lemma transactions_loop_outcome:
  assumes "transactions_loop i xs out = (out', c)" and "list_all (\<lambda>l. \<not> is_failure l) out"
  shows "(c = Done \<longrightarrow> list_all (\<lambda>l. \<not> is_failure l) out') \<and>
         (\<forall>n. c = SysExit n \<longrightarrow> n = 1 \<and> failed out')"
  using assms
proof (induction xs arbitrary: i out)
  case Nil
  then show ?case by auto
next
  case (Cons tx rest)
  show ?case
  proof (cases "\<exists>v n. py_in key_spent_outputs tx = Inr True \<and>
      py_getitem tx key_spent_outputs = Inr v \<and> py_len v = Inr n")
    case True
    then obtain v n where "py_in key_spent_outputs tx = Inr True"
      "py_getitem tx key_spent_outputs = Inr v" "py_len v = Inr n" by blast
    with Cons.prems have "transactions_loop (Suc i) rest (out @ [Transaction_has i n]) = (out', c)"
      and "list_all (\<lambda>l. \<not> is_failure l) (out @ [Transaction_has i n])"
      by simp_all
    then show ?thesis by (rule Cons.IH)
  next
    case False
    with Cons.prems show ?thesis
      by (auto simp: failed_snoc split: sum.splits if_splits)
  qed
qed

lemma check_outputs_outcome:
  assumes "check_outputs data [] = (out', c)"
  shows "(c = Done \<longrightarrow> list_all (\<lambda>l. \<not> is_failure l) out') \<and>
         (\<forall>n. c = SysExit n \<longrightarrow> n = 1 \<and> failed out')"
  using assms outputs_loop_outcome [of 0 _ "[Checking_outputs _]" out' c]
  by (auto simp: check_outputs_def split: sum.splits)

lemma check_transactions_outcome:
  assumes "check_transactions data [] = (out', c)"
  shows "(c = Done \<longrightarrow> list_all (\<lambda>l. \<not> is_failure l) out') \<and>
         (\<forall>n. c = SysExit n \<longrightarrow> n = 1 \<and> failed out')"
  using assms transactions_loop_outcome [of 0 _ "[Checking_transactions _]" out' c]
  by (auto simp: check_transactions_def split: sum.splits)

lemma report_success_outcome:
  assumes "report_success (out, c) = (out', c')"
    and "c = Done \<longrightarrow> list_all (\<lambda>l. \<not> is_failure l) out"
    and "\<forall>n. c = SysExit n \<longrightarrow> n = 1 \<and> failed out"
  shows "(c' = Done \<longrightarrow> succeeded out') \<and> (\<forall>n. c' = SysExit n \<longrightarrow> n = 1 \<and> failed out')"
  using assms by (cases c) (auto simp: succeeded_def)

lemma validate_outcome:
  assumes "validate data [] = (out', c)"
  shows "(c = Done \<longrightarrow> succeeded out') \<and> (\<forall>n. c = SysExit n \<longrightarrow> n = 1 \<and> failed out')"
proof -
  consider e where "py_in key_outputs data = Inl e"
    | "py_in key_outputs data = Inr True"
    | e where "py_in key_outputs data = Inr False" "py_in key_transactions data = Inl e"
    | "py_in key_outputs data = Inr False" "py_in key_transactions data = Inr True"
    | "py_in key_outputs data = Inr False" "py_in key_transactions data = Inr False"
    by (metis (full_types) sum.exhaust_sel sum.collapse)
  then show ?thesis
  proof cases
    case 1
    with assms show ?thesis by (auto simp: validate_def)
  next
    case 2
    obtain o1 c1 where r: "check_outputs data [] = (o1, c1)"
      by (cases "check_outputs data []")
    with 2 assms have "report_success (o1, c1) = (out', c)"
      by (simp add: validate_def)
    then show ?thesis
      using check_outputs_outcome [OF r] by (intro report_success_outcome) auto
  next
    case 3
    with assms show ?thesis by (auto simp: validate_def)
  next
    case 4
    obtain o1 c1 where r: "check_transactions data [] = (o1, c1)"
      by (cases "check_transactions data []")
    with 4 assms have "report_success (o1, c1) = (out', c)"
      by (simp add: validate_def)
    then show ?thesis
      using check_transactions_outcome [OF r] by (intro report_success_outcome) auto
  next
    case 5
    with assms show ?thesis by (auto simp: validate_def succeeded_def)
  qed
qed

lemma not_succeeded_and_failed: "\<not> (succeeded out \<and> failed out)"
  by (auto simp: succeeded_def failed_def)

lemma validate_lws_outcome:
  "(snd (validate_lws loaded) = 0 \<and> succeeded (fst (validate_lws loaded))) \<or>
   (snd (validate_lws loaded) = 1 \<and> failed (fst (validate_lws loaded)))"
proof (cases loaded)
  case (Inl e)
  then show ?thesis by (simp add: validate_lws_def failed_def)
next
  case (Inr data)
  obtain out c where r: "validate data [] = (out, c)"
    by (cases "validate data []")
  show ?thesis
    using validate_outcome [OF r] Inr r
    by (cases c) (auto simp: validate_lws_def failed_def)
qed

section \<open>The dump is lower-case hexadecimal\<close>

lemma utf8_encode_no_surrogate:
  "list_all (\<lambda>c. \<not> is_surrogate c) s \<Longrightarrow> utf8_encode i s = Inr (concat (map utf8_char s))"
  by (induction s arbitrary: i) simp_all

lemma length_hex_digits: "length hex_digits = 16"
  by (simp add: hex_digits_def str_def)

lemma hex_digits_lower: "k < 16 \<Longrightarrow> is_lower_hex (hex_digits ! k)"
proof -
  have "list_all is_lower_hex hex_digits"
    by (simp add: hex_digits_def str_def is_lower_hex_def)
  then show "k < 16 \<Longrightarrow> is_lower_hex (hex_digits ! k)"
    by (simp add: list_all_length length_hex_digits)
qed

lemma byte_hex_lower: "list_all is_lower_hex (byte_hex b)"
proof -
  have "unat b < 256"
    using unsigned_less [of b, where 'a = nat] by simp
  then have "unat b div 16 < 16" and "unat b mod 16 < 16"
    by simp_all
  then show ?thesis
    by (simp add: byte_hex_def hex_digits_lower)
qed

lemma bytes_hex_lower: "list_all is_lower_hex (bytes_hex bs)"
  by (induction bs) (simp_all add: bytes_hex_def byte_hex_lower)

lemma length_bytes_hex: "length (bytes_hex bs) = 2 * length bs"
  by (induction bs) (simp_all add: bytes_hex_def byte_hex_def)

section \<open>The claims\<close>

subsection \<open>C1: the hex predicate\<close>

text \<open>
  C1 says that \<open>validate_hex\<close> with length 64 is true for every string of 64 hex digits
  and false for every string of another length or with a character outside
  \<open>[0-9a-fA-F]\<close>. The code accepts one more shape: 63 hex digits followed by a line
  feed, because \<open>$\<close> also matches before a final line feed. Here the string of 63
  letters \<open>a\<close> and a line feed (code point 10) passes the predicate, and a document
  whose only output carries it as \<open>tx_pub_key\<close> is reported valid and the process exits
  with 0.
\<close>

theorem validate_hex_accepts_final_line_feed:
  "validate_hex (JString (replicate 63 97 @ [10])) 64 = Inr True \<and>
   validate_lws (Inr (JObject [(key_outputs,
       JArray [JObject [(key_tx_pub_key, JString (replicate 63 97 @ [10]))]])])) =
     ([Checking_outputs 1, Output_valid 0 (JString (replicate 63 97 @ [10])),
       Validation_Successful], 0)"
  by (simp add: validate_lws_def validate_def check_outputs_def validate_hex_string
      print_valid list_all_iff is_hex_def)

text \<open>
  What the predicate decides on a string, exactly: the length is 64, and either all 64
  characters are hex digits, or the first 63 are and the last is a line feed.
\<close>

theorem validate_hex_exact:
  "validate_hex (JString s) 64 =
     Inr (length s = 64 \<and> (list_all is_hex s \<or> (list_all is_hex (butlast s) \<and> last s = 10)))"
  by (rule validate_hex_string)

subsection \<open>C2: a transaction that has \<open>spent_outputs\<close>\<close>

text \<open>
  C2 says that an element of \<open>transactions\<close> with the key \<open>spent_outputs\<close> passes whatever
  the type of the value. It does not when the value has no length: for
  \<^verbatim>\<open>{"transactions": [{"spent_outputs": null}]}\<close> the key is present, \<open>len(None)\<close> raises,
  no line is printed for the element and the process exits with 1.
\<close>

theorem spent_outputs_null_counterexample:
  "py_in key_spent_outputs (JObject [(key_spent_outputs, JNull)]) = Inr True \<and>
   validate_lws (Inr (JObject [(key_transactions,
       JArray [JObject [(key_spent_outputs, JNull)]])])) =
     ([Checking_transactions 1, Validation_Error (TypeError (No_len NoneType))], 1)"
  by (simp add: validate_lws_def validate_def check_transactions_def
      key_outputs_def key_transactions_def str_def)

text \<open>
  C2 as amended: in a document without \<open>outputs\<close> whose \<open>transactions\<close> is a list, take an
  element that is an object with the key \<open>spent_outputs\<close>, every element before it
  having passed (the loop over them ran to its end, printing \<open>ls\<close>). If the value \<open>v\<close> of
  \<open>spent_outputs\<close> has a length \<open>n\<close> (it is a string, a list or an object; nothing else
  is asked of its contents or its length), the element passes: the run prints its index
  and \<open>n\<close> and goes on with the next element.
\<close>

theorem transaction_with_spent_outputs_passes:
  assumes "map_of kvs key_outputs = None"
    and "map_of kvs key_transactions = Some (JArray (pre @ JObject fields # post))"
    and "transactions_loop 0 pre [] = (ls, Done)"
    and "map_of fields key_spent_outputs = Some v"
    and "py_len v = Inr n"
  shows "validate_lws (Inr (JObject kvs)) =
           handle (report_success (transactions_loop (Suc (length pre)) post
             (Checking_transactions (length pre + 1 + length post) # ls @
                [Transaction_has (length pre) n])))"
proof -
  from assms(4,5) have "transactions_loop (length pre) (JObject fields # post) out =
      transactions_loop (Suc (length pre)) post (out @ [Transaction_has (length pre) n])" for out
    by (simp add: py_in_object del: py_in.simps)
  then show ?thesis
    by (simp add: validate_lws_transactions [OF assms(1,2)]
        transactions_loop_prefix [OF assms(3)])
qed

theorem transaction_with_spent_outputs_passes_witness:
  "validate_lws (Inr (JObject [(key_transactions, JArray
       [JObject [(key_spent_outputs, JString (str ''ab''))],
        JObject [(key_spent_outputs, JArray [JInt 1, JInt 2, JInt 3])],
        JObject [(key_spent_outputs, JObject [])]])])) =
     ([Checking_transactions 3, Transaction_has 0 2, Transaction_has 1 3, Transaction_has 2 0,
       Validation_Successful], 0)"
  using transaction_with_spent_outputs_passes
    [of "[(key_transactions, JArray
       [JObject [(key_spent_outputs, JString (str ''ab''))],
        JObject [(key_spent_outputs, JArray [JInt 1, JInt 2, JInt 3])],
        JObject [(key_spent_outputs, JObject [])]])]"
      "[JObject [(key_spent_outputs, JString (str ''ab''))]]"
      "[(key_spent_outputs, JArray [JInt 1, JInt 2, JInt 3])]"
      "[JObject [(key_spent_outputs, JObject [])]]"
      "[Transaction_has 0 2]" "JArray [JInt 1, JInt 2, JInt 3]" 3]
  by (simp add: key_outputs_def key_transactions_def str_def)

subsection \<open>C3: \<open>outputs\<close> before \<open>transactions\<close>\<close>



subsection \<open>C4: the exit code\<close>

text \<open>
  C4: the exit code is 0 or 1; it is 0 exactly when the run succeeded (no failure line,
  \<^verbatim>\<open>Validation Successful\<close> last) and 1 exactly when it failed (a failure line last). An
  object with neither \<open>outputs\<close> nor \<open>transactions\<close>, such as \<^verbatim>\<open>{}\<close>, is checked for nothing
  and succeeds with 0; an exception raised by \<^verbatim>\<open>json.load\<close> gives 1.
\<close>

theorem exit_code_zero_iff_success:
  "(snd (validate_lws loaded) = 0 \<or> snd (validate_lws loaded) = 1) \<and>
   (snd (validate_lws loaded) = 0 \<longleftrightarrow> succeeded (fst (validate_lws loaded))) \<and>
   (snd (validate_lws loaded) = 1 \<longleftrightarrow> failed (fst (validate_lws loaded))) \<and>
   (map_of kvs key_outputs = None \<and> map_of kvs key_transactions = None \<longrightarrow>
      validate_lws (Inr (JObject kvs)) = ([Validation_Successful], 0)) \<and>
   validate_lws (Inl e) = ([Validation_Error e], 1)"
proof -
  have "validate_lws (Inr (JObject kvs)) = ([Validation_Successful], 0)"
    if "map_of kvs key_outputs = None" and "map_of kvs key_transactions = None"
    using that by (simp add: validate_lws_def validate_def py_in_object del: py_in.simps)
  moreover have "validate_lws (Inl e) = ([Validation_Error e], 1)"
    by (simp add: validate_lws_def)
  ultimately show ?thesis
    using validate_lws_outcome [of loaded] not_succeeded_and_failed [of "fst (validate_lws loaded)"]
    by auto
qed

theorem exit_code_zero_iff_success_witness:
  "validate_lws (Inr (JObject [])) = ([Validation_Successful], 0) \<and>
   succeeded (fst (validate_lws (Inr (JObject [])))) \<and>
   \<not> failed (fst (validate_lws (Inr (JObject []))))"
proof -
  note h = exit_code_zero_iff_success [of "Inr (JObject [])" "[]" "OtherError []"]
  from h have r: "validate_lws (Inr (JObject [])) = ([Validation_Successful], 0)"
    by simp
  then have "snd (validate_lws (Inr (JObject []))) = 0"
    by simp
  with h have "succeeded (fst (validate_lws (Inr (JObject []))))"
    and "\<not> failed (fst (validate_lws (Inr (JObject []))))"
    by auto
  with r show ?thesis
    by blast
qed

subsection \<open>C5: a missing \<open>tx_pub_key\<close>\<close>

text \<open>
  C5: in a document whose \<open>outputs\<close> is a list, take an element that is an object whose
  \<open>tx_pub_key\<close> is absent or falsy (null, false, zero, or an empty string, list or
  object), every element before it having passed (the loop over them ran to its end,
  printing \<open>ls\<close>). The run prints the missing-field error with the element's index,
  counted from 0, and exits with 1; of the elements after it only their number shows,
  in the first line.
\<close>

theorem missing_tx_pub_key_stops_run:
  assumes "map_of kvs key_outputs = Some (JArray (pre @ JObject fields # post))"
    and "outputs_loop 0 pre [] = (ls, Done)"
    and "map_of fields key_tx_pub_key = None \<or>
         (\<exists>v. map_of fields key_tx_pub_key = Some v \<and> \<not> truthy v)"
  shows "validate_lws (Inr (JObject kvs)) =
           (Checking_outputs (length pre + 1 + length post) # ls @
              [Output_missing (length pre)], 1)"
proof -
  from assms(3) obtain pubkey
    where "py_get (JObject fields) key_tx_pub_key = Inr pubkey" and "\<not> truthy pubkey"
    by auto
  then have "outputs_loop (length pre) (JObject fields # post) out =
      (out @ [Output_missing (length pre)], SysExit 1)" for out
    by (simp del: py_get.simps)
  then show ?thesis
    by (simp add: validate_lws_outputs [OF assms(1)] outputs_loop_prefix [OF assms(2)])
qed

text \<open>A valid output, then one without the field, then a number that is never reached.\<close>

theorem missing_tx_pub_key_stops_run_witness:
  "validate_lws (Inr (JObject [(key_outputs, JArray
       [JObject [(key_tx_pub_key, JString (replicate 64 97))], JObject [], JInt 7])])) =
     ([Checking_outputs 3, Output_valid 0 (JString (replicate 64 97)), Output_missing 1], 1)"
  using missing_tx_pub_key_stops_run
    [of "[(key_outputs, JArray
       [JObject [(key_tx_pub_key, JString (replicate 64 97))], JObject [], JInt 7])]"
      "[JObject [(key_tx_pub_key, JString (replicate 64 97))]]" "[]" "[JInt 7]"
      "[Output_valid 0 (JString (replicate 64 97))]"]
  by (simp add: validate_hex_string print_valid list_all_iff is_hex_def)

subsection \<open>C6: an invalid \<open>tx_pub_key\<close>\<close>

text \<open>
  C6 says that every truthy \<open>tx_pub_key\<close> that fails the hex predicate gets the
  diagnostic with its hexadecimal dump. A value that is not a string does not: for
  \<^verbatim>\<open>{"outputs": [{"tx_pub_key": [1, 2, 3]}]}\<close> the list is truthy and fails the predicate
  (its length is 3), the first line of the diagnostic is printed, then \<open>encode\<close> raises
  and the handler's line stands where the dump would be.
\<close>

theorem invalid_list_key_counterexample:
  "truthy (JArray [JInt 1, JInt 2, JInt 3]) \<and>
   validate_hex (JArray [JInt 1, JInt 2, JInt 3]) 64 = Inr False \<and>
   validate_lws (Inr (JObject [(key_outputs,
       JArray [JObject [(key_tx_pub_key, JArray [JInt 1, JInt 2, JInt 3])]])])) =
     ([Checking_outputs 1, Output_invalid 0 (JArray [JInt 1, JInt 2, JInt 3]) 3,
       Validation_Error (AttributeError T_list ''encode'')], 1)"
  by (simp add: validate_lws_def validate_def check_outputs_def validate_hex_def hex_repr_def
      py_print_def)

text \<open>
  C6 as amended: in a document whose \<open>outputs\<close> is a list, take an element that is an
  object whose \<open>tx_pub_key\<close> is a non-empty string \<open>s\<close> that fails the hex predicate and
  holds no surrogate code point, every element before it having passed. The run prints
  the invalid-field error with the element's index, the string and its length in code
  points, then the dump of the string's UTF-8 bytes, and exits with 1. The dump has two
  characters for each byte, each of them one of \<open>0\<close>-\<open>9\<close>, \<open>a\<close>-\<open>f\<close>.
\<close>

theorem invalid_string_key_diagnostic:
  assumes "map_of kvs key_outputs = Some (JArray (pre @ JObject fields # post))"
    and "outputs_loop 0 pre [] = (ls, Done)"
    and "map_of fields key_tx_pub_key = Some (JString s)"
    and "s \<noteq> []"
    and "validate_hex (JString s) 64 = Inr False"
    and "list_all (\<lambda>c. \<not> is_surrogate c) s"
  shows "validate_lws (Inr (JObject kvs)) =
           (Checking_outputs (length pre + 1 + length post) # ls @
              [Output_invalid (length pre) (JString s) (length s),
               Hex_repr (bytes_hex (concat (map utf8_char s)))], 1) \<and>
         list_all is_lower_hex (bytes_hex (concat (map utf8_char s))) \<and>
         length (bytes_hex (concat (map utf8_char s))) = 2 * length (concat (map utf8_char s))"
proof -
  have "hex_repr (JString s) = Inr (bytes_hex (concat (map utf8_char s)))"
    using assms(6) by (simp add: hex_repr_def utf8_encode_no_surrogate)
  with assms(3-5) have "outputs_loop (length pre) (JObject fields # post) out =
      (out @ [Output_invalid (length pre) (JString s) (length s),
              Hex_repr (bytes_hex (concat (map utf8_char s)))], SysExit 1)" for out
    by (simp add: print_invalid_string [OF assms(6)])
  then show ?thesis
    by (simp add: validate_lws_outputs [OF assms(1)] outputs_loop_prefix [OF assms(2)]
        bytes_hex_lower length_bytes_hex)
qed

text \<open>A valid output, then the value \<^verbatim>\<open>xyz\<close>: length 3, dump \<^verbatim>\<open>78797a\<close>.\<close>

theorem invalid_string_key_diagnostic_witness:
  "validate_lws (Inr (JObject [(key_outputs, JArray
       [JObject [(key_tx_pub_key, JString (replicate 64 97))],
        JObject [(key_tx_pub_key, JString (str ''xyz''))]])])) =
     ([Checking_outputs 2, Output_valid 0 (JString (replicate 64 97)),
       Output_invalid 1 (JString (str ''xyz'')) 3, Hex_repr (str ''78797a'')], 1)"
  using invalid_string_key_diagnostic
    [of "[(key_outputs, JArray
       [JObject [(key_tx_pub_key, JString (replicate 64 97))],
        JObject [(key_tx_pub_key, JString (str ''xyz''))]])]"
      "[JObject [(key_tx_pub_key, JString (replicate 64 97))]]"
      "[(key_tx_pub_key, JString (str ''xyz''))]" "[]"
      "[Output_valid 0 (JString (replicate 64 97))]" "str ''xyz''"]
  by (simp add: validate_hex_string print_valid list_all_iff is_hex_def str_def
      is_surrogate_def bytes_hex_def byte_hex_def utf8_char_def hex_digits_def)

subsection \<open>C7: input that is not JSON\<close>

text \<open>
  C7: when \<^verbatim>\<open>json.load\<close> raises \<open>JSONDecodeError\<close> with the parser's description \<open>d\<close>, the
  run prints the one line \<^verbatim>\<open>Validation Error: {d}\<close>, checks nothing and exits with 1.
\<close>

theorem parse_error_reported:
  "validate_lws (Inl (JSONDecodeError d)) = ([Validation_Error (JSONDecodeError d)], 1)"
  by (simp add: validate_lws_def)

subsection \<open>C9: an output that is not an object\<close>

text \<open>
  C9: in a document whose \<open>outputs\<close> is a list, take an element that is not an object,
  every element before it having passed. Its \<open>get\<close> raises \<open>AttributeError\<close>, which only
  the handler catches: the run prints \<^verbatim>\<open>Validation Error: ...\<close>, neither the
  missing-field nor the invalid-field error, and exits with 1.
\<close>

theorem non_object_output_generic_error:
  assumes "map_of kvs key_outputs = Some (JArray (pre @ x # post))"
    and "outputs_loop 0 pre [] = (ls, Done)"
    and "type_of x \<noteq> T_dict"
  shows "validate_lws (Inr (JObject kvs)) =
           (Checking_outputs (length pre + 1 + length post) # ls @
              [Validation_Error (AttributeError (type_of x) ''get'')], 1)"
proof -
  from assms(3) have "py_get x key_tx_pub_key = Inl (AttributeError (type_of x) ''get'')"
    by (cases x) simp_all
  then have "outputs_loop (length pre) (x # post) out =
      (out, Raised (AttributeError (type_of x) ''get''))" for out
    by simp
  then show ?thesis
    by (simp add: validate_lws_outputs [OF assms(1)] outputs_loop_prefix [OF assms(2)])
qed

theorem non_object_output_generic_error_witness:
  "validate_lws (Inr (JObject [(key_outputs, JArray
       [JObject [(key_tx_pub_key, JString (replicate 64 97))], JString (str ''abc'')])])) =
     ([Checking_outputs 2, Output_valid 0 (JString (replicate 64 97)),
       Validation_Error (AttributeError T_str ''get'')], 1)"
  using non_object_output_generic_error
    [of "[(key_outputs, JArray
       [JObject [(key_tx_pub_key, JString (replicate 64 97))], JString (str ''abc'')])]"
      "[JObject [(key_tx_pub_key, JString (replicate 64 97))]]" "JString (str ''abc'')" "[]"
      "[Output_valid 0 (JString (replicate 64 97))]"]
  by (simp add: validate_hex_string print_valid list_all_iff is_hex_def)

subsection \<open>C10: a document that is not an object\<close>

text \<open>
  C10: a document that is a number fails at the first membership test, and the array
  \<^verbatim>\<open>["outputs"]\<close> passes it and fails at the indexing by key; both runs print the
  handler's line and exit with 1.
\<close>

theorem non_object_document_generic_error:
  "validate_lws (Inr (JInt n)) = ([Validation_Error (TypeError (Not_iterable T_int))], 1) \<and>
   validate_lws (Inr (JFloat w)) = ([Validation_Error (TypeError (Not_iterable T_float))], 1) \<and>
   py_in key_outputs (JArray [JString key_outputs]) = Inr True \<and>
   validate_lws (Inr (JArray [JString key_outputs])) =
     ([Validation_Error (TypeError (Bad_index T_list))], 1)"
  by (simp add: validate_lws_def validate_def check_outputs_def)

subsection \<open>Further properties of the two loops\<close>

text \<open>
  A transaction that is an object without the key \<open>spent_outputs\<close>, reached after every
  element before it passed, ends the run with the missing-field error for its index and
  exit code 1.
\<close>

theorem missing_spent_outputs_stops_run:
  assumes "map_of kvs key_outputs = None"
    and "map_of kvs key_transactions = Some (JArray (pre @ JObject fields # post))"
    and "transactions_loop 0 pre [] = (ls, Done)"
    and "map_of fields key_spent_outputs = None"
  shows "validate_lws (Inr (JObject kvs)) =
           (Checking_transactions (length pre + 1 + length post) # ls @
              [Transaction_missing (length pre)], 1)"
proof -
  from assms(4) have "transactions_loop (length pre) (JObject fields # post) out =
      (out @ [Transaction_missing (length pre)], SysExit 1)" for out
    by (simp add: py_in_object del: py_in.simps)
  then show ?thesis
    by (simp add: validate_lws_transactions [OF assms(1,2)]
        transactions_loop_prefix [OF assms(3)])
qed

theorem missing_spent_outputs_stops_run_witness:
  "validate_lws (Inr (JObject [(key_transactions, JArray [JObject []])])) =
     ([Checking_transactions 1, Transaction_missing 0], 1)"
  using missing_spent_outputs_stops_run
    [of "[(key_transactions, JArray [JObject []])]" "[]" "[]" "[]" "[]"]
  by (simp add: key_outputs_def key_transactions_def str_def)

text \<open>
  An output that is an object whose \<open>tx_pub_key\<close> is a string of 64 hex digits, reached
  after every element before it passed, is reported valid with its index and the run
  goes on with the next element.
\<close>

theorem valid_tx_pub_key_passes:
  assumes "map_of kvs key_outputs = Some (JArray (pre @ JObject fields # post))"
    and "outputs_loop 0 pre [] = (ls, Done)"
    and "map_of fields key_tx_pub_key = Some (JString s)"
    and "length s = 64"
    and "list_all is_hex s"
  shows "validate_lws (Inr (JObject kvs)) =
           handle (report_success (outputs_loop (Suc (length pre)) post
             (Checking_outputs (length pre + 1 + length post) # ls @
                [Output_valid (length pre) (JString s)])))"
proof -
  from assms(4) have "s \<noteq> []"
    by auto
  with assms(3-5) have "outputs_loop (length pre) (JObject fields # post) out =
      outputs_loop (Suc (length pre)) post (out @ [Output_valid (length pre) (JString s)])" for out
    by (simp add: validate_hex_string print_valid)
  then show ?thesis
    by (simp add: validate_lws_outputs [OF assms(1)] outputs_loop_prefix [OF assms(2)])
qed

theorem valid_tx_pub_key_passes_witness:
  "validate_lws (Inr (JObject [(key_outputs,
       JArray [JObject [(key_tx_pub_key, JString (replicate 64 97))]])])) =
     ([Checking_outputs 1, Output_valid 0 (JString (replicate 64 97)),
       Validation_Successful], 0)"
  using valid_tx_pub_key_passes
    [of "[(key_outputs, JArray [JObject [(key_tx_pub_key, JString (replicate 64 97))]])]"
      "[]" "[(key_tx_pub_key, JString (replicate 64 97))]" "[]" "[]" "replicate 64 97"]
  by (simp add: list_all_iff is_hex_def)

end
